theory Spec2Isabelle
  imports Main
begin

section \<open>The namespace of a contract (vyper/context/namespace.py)\<close>

text \<open>
  \<^verbatim>\<open>Namespace\<close> is a \<^verbatim>\<open>dict\<close> subclass with one extra attribute, \<^verbatim>\<open>_scopes\<close>, a list
  of sets of key names. The model is a record of the two: the dictionary as a map from
  names to definitions, and the scope stack as a list whose last element is the
  innermost scope. The definitions stored in the dictionary are opaque to this module,
  so their type is a parameter \<open>'d\<close>.

  A Python \<^verbatim>\<open>set\<close> of names is modelled by the duplicate-free list of its elements in
  the order in which \<^verbatim>\<open>for key in ...\<close> visits them. Python visits a set in hash order;
  the model's \<open>add\<close> puts a new name last. The order matters in one place only: when
  \<^verbatim>\<open>__exit__\<close> raises \<^verbatim>\<open>KeyError\<close>, the names deleted before the missing one depend on it.
  No theorem below states the namespace left behind by that \<^verbatim>\<open>KeyError\<close>; those about
  arbitrary namespaces hold for every list, hence for every visiting order.
\<close>

record 'd namespace =
  dict :: "string \<rightharpoonup> 'd"
  scopes :: "string list list"

subsection \<open>Exceptions\<close>

text \<open>
  The four exception classes imported from \<^verbatim>\<open>vyper.exceptions\<close>, each carrying the
  message it is raised with, and Python's own \<^verbatim>\<open>KeyError\<close>, which \<^verbatim>\<open>del self[key]\<close>
  raises for a missing key. A message keeps the values interpolated into its f-string.
\<close>

datatype 'd message =
    Contains_invalid_characters string
  | Is_a_builtin string
  | Already_declared_as string 'd
  | Is_a_reserved_keyword string
  | Has_not_been_declared string
  | Must_be_invoked_via_enter_scope
  | Bad_use_as_a_context_manager

datatype 'd exn =
    CompilerPanic "'d message"
  | NamespaceCollision "'d message"
  | StructureException "'d message"
  | UndeclaredDefinition "'d message"
  | KeyError string

text \<open>
  A method call on a namespace yields an outcome and the namespace after the call.
  \<open>Inl e\<close> is \<^verbatim>\<open>raise e\<close>, \<open>Inr v\<close> is a normal return of \<open>v\<close>. The namespace is
  returned in both cases: a Python exception leaves the object as the statements
  executed before the \<^verbatim>\<open>raise\<close> have made it.
\<close>

type_synonym ('d, 'a) outcome = "('d exn + 'a) \<times> 'd namespace"

subsection \<open>What the module imports\<close>

text \<open>
  \<^verbatim>\<open>OPCODES\<close> (\<^verbatim>\<open>vyper.opcodes\<close>) and the four provider functions (\<^verbatim>\<open>get_types\<close>,
  \<^verbatim>\<open>environment.get_constant_vars\<close>, \<^verbatim>\<open>get_builtin_functions\<close>,
  \<^verbatim>\<open>environment.get_mutable_vars\<close>) live in other modules. They are parameters of the
  model: the opcode names as a set, and each provider's dictionary as the list of its
  items in iteration order.
\<close>

record 'd env =
  OPCODES :: "string set"
  get_types :: "(string \<times> 'd) list"
  get_constant_vars :: "(string \<times> 'd) list"
  get_builtin_functions :: "(string \<times> 'd) list"
  get_mutable_vars :: "(string \<times> 'd) list"

subsection \<open>Strings\<close>

definition ascii_lowercase :: string where
  "ascii_lowercase = ''abcdefghijklmnopqrstuvwxyz''"

definition ascii_uppercase :: string where
  "ascii_uppercase = ''ABCDEFGHIJKLMNOPQRSTUVWXYZ''"

definition digits :: string where
  "digits = ''0123456789''"

text \<open>
  \<^verbatim>\<open>re.match("^[_a-zA-Z][a-zA-Z0-9_]*$", attr)\<close>. Without \<^verbatim>\<open>re.MULTILINE\<close>, \<^verbatim>\<open>$\<close>
  matches at the end of the string and also just before a newline that ends the
  string, so a single trailing line feed is accepted after the identifier.
\<close>

definition first_char :: "char \<Rightarrow> bool" where
  "first_char c = (c \<in> set (''_'' @ ascii_lowercase @ ascii_uppercase))"

definition later_char :: "char \<Rightarrow> bool" where
  "later_char c = (c \<in> set (ascii_lowercase @ ascii_uppercase @ digits @ ''_''))"

definition re_match :: "string \<Rightarrow> bool" where
  "re_match attr =
     (case attr of
        [] \<Rightarrow> False
      | c # cs \<Rightarrow>
          first_char c \<and>
          (list_all later_char cs \<or>
           (cs \<noteq> [] \<and> last cs = CHR 0x0A \<and> list_all later_char (butlast cs))))"

text \<open>
  \<^verbatim>\<open>str.lower\<close> and \<^verbatim>\<open>str.upper\<close> on ASCII letters; every other character is kept.
  \<^verbatim>\<open>validate_assignment\<close> applies them only to names that matched the pattern above,
  which hold no character outside ASCII.
\<close>

definition lower_char :: "char \<Rightarrow> char" where
  "lower_char c =
     (case map_of (zip ascii_uppercase ascii_lowercase) c of Some l \<Rightarrow> l | None \<Rightarrow> c)"

definition upper_char :: "char \<Rightarrow> char" where
  "upper_char c =
     (case map_of (zip ascii_lowercase ascii_uppercase) c of Some u \<Rightarrow> u | None \<Rightarrow> c)"

definition lower :: "string \<Rightarrow> string" where
  "lower attr = map lower_char attr"

definition upper :: "string \<Rightarrow> string" where
  "upper attr = map upper_char attr"

definition RESERVED_KEYWORDS :: "string set" where
  "RESERVED_KEYWORDS = set
    [''public'', ''external'', ''nonpayable'', ''constant'', ''internal'', ''payable'',
     ''nonreentrant'',
     ''if'', ''for'', ''while'', ''until'', ''pass'', ''def'',
     ''send'', ''selfdestruct'', ''assert'', ''raise'', ''throw'',
     ''init'', ''_init_'', ''___init___'', ''____init____'',
     ''default'', ''_default_'', ''___default___'', ''____default____'',
     ''chainid'', ''blockhash'', ''timestamp'', ''timedelta'',
     ''true'', ''false'',
     ''this'', ''continue'', ''range'',
     ''none'',
     ''indexed'',
     ''ether'', ''wei'', ''finney'', ''szabo'', ''shannon'', ''lovelace'', ''ada'',
     ''babbage'', ''gwei'', ''kwei'', ''mwei'', ''twei'', ''pwei'',
     ''balance'', ''codesize'', ''is_contract'',
     ''units'',
     ''zero_address'', ''empty_bytes32'', ''max_int128'', ''min_int128'',
     ''max_decimal'', ''min_decimal'', ''max_uint256'', ''zero_wei'']"

subsection \<open>The methods of Namespace\<close>

text \<open>
  \<^verbatim>\<open>validate_assignment\<close> either raises (\<open>Inl\<close>) or returns a value (\<open>Inr\<close>): the
  \<^verbatim>\<open>StructureException\<close> object of line 85, which is returned and not raised, or
  \<^verbatim>\<open>None\<close>. It changes nothing.
\<close>

definition validate_assignment ::
  "'d env \<Rightarrow> 'd namespace \<Rightarrow> string \<Rightarrow> 'd exn + 'd exn option" where
  "validate_assignment E self attr =
     (if \<not> re_match attr then
        Inr (Some (StructureException (Contains_invalid_characters attr)))
      else
        (case dict self attr of
           Some obj \<Rightarrow>
             if attr \<notin> set (concat (scopes self)) then
               Inl (NamespaceCollision (Is_a_builtin attr))
             else Inl (NamespaceCollision (Already_declared_as attr obj))
         | None \<Rightarrow>
             if scopes self = [] then Inr None
             else if lower attr \<in> RESERVED_KEYWORDS \<or> upper attr \<in> OPCODES E then
               Inl (StructureException (Is_a_reserved_keyword attr))
             else Inr None))"

text \<open>\<^verbatim>\<open>s.add(attr)\<close> on a set.\<close>

definition add :: "string list \<Rightarrow> string \<Rightarrow> string list" where
  "add s attr = (if attr \<in> set s then s else s @ [attr])"

text \<open>
  \<^verbatim>\<open>__setitem__\<close>: the value \<^verbatim>\<open>validate_assignment\<close> returns is discarded; only an
  exception it raises stops the assignment.
\<close>

definition setitem ::
  "'d env \<Rightarrow> 'd namespace \<Rightarrow> string \<Rightarrow> 'd \<Rightarrow> ('d, unit) outcome" where
  "setitem E self attr obj =
     (case validate_assignment E self attr of
        Inl e \<Rightarrow> (Inl e, self)
      | Inr _ \<Rightarrow>
          (Inr (),
           self\<lparr>scopes :=
                  (if scopes self \<noteq> []
                   then butlast (scopes self) @ [add (last (scopes self)) attr]
                   else scopes self),
                dict := (dict self)(attr \<mapsto> obj)\<rparr>))"

definition getitem :: "'d namespace \<Rightarrow> string \<Rightarrow> ('d, 'd) outcome" where
  "getitem self key =
     (case dict self key of
        None \<Rightarrow> (Inl (UndeclaredDefinition (Has_not_been_declared key)), self)
      | Some obj \<Rightarrow> (Inr obj, self))"

definition enter :: "'d namespace \<Rightarrow> ('d, unit) outcome" where
  "enter self =
     (if scopes self = [] then (Inl (CompilerPanic Must_be_invoked_via_enter_scope), self)
      else (Inr (), self))"

text \<open>
  The loop of \<^verbatim>\<open>__exit__\<close>, \<^verbatim>\<open>for key in ...: del self[key]\<close>, over the popped set.
  \<^verbatim>\<open>del\<close> on a \<^verbatim>\<open>dict\<close> raises \<^verbatim>\<open>KeyError\<close> for a key that is not there, and the
  loop stops at it.
\<close>

fun del_keys :: "string list \<Rightarrow> 'd namespace \<Rightarrow> ('d, unit) outcome" where
  "del_keys [] self = (Inr (), self)"
| "del_keys (key # keys) self =
     (case dict self key of
        None \<Rightarrow> (Inl (KeyError key), self)
      | Some _ \<Rightarrow> del_keys keys (self\<lparr>dict := (dict self)(key := None)\<rparr>))"

definition exit :: "'d namespace \<Rightarrow> ('d, unit) outcome" where
  "exit self =
     (if scopes self = [] then (Inl (CompilerPanic Bad_use_as_a_context_manager), self)
      else del_keys (last (scopes self)) (self\<lparr>scopes := butlast (scopes self)\<rparr>))"

text \<open>\<^verbatim>\<open>update\<close>: one \<^verbatim>\<open>__setitem__\<close> per item; the first exception ends the loop.\<close>

fun update :: "'d env \<Rightarrow> 'd namespace \<Rightarrow> (string \<times> 'd) list \<Rightarrow> ('d, unit) outcome" where
  "update E self [] = (Inr (), self)"
| "update E self ((key, val) # other) =
     (case setitem E self key val of
        (Inl e, self') \<Rightarrow> (Inl e, self')
      | (Inr _, self') \<Rightarrow> update E self' other)"

definition enter_scope :: "'d env \<Rightarrow> 'd namespace \<Rightarrow> ('d, unit) outcome" where
  "enter_scope E self =
     (let self1 = self\<lparr>scopes := scopes self @ [[]]\<rparr>
      in if length (scopes self1) = 1 then update E self1 (get_mutable_vars E)
         else (Inr (), self1))"

text \<open>
  \<^verbatim>\<open>__init__\<close>, run on an existing object: \<^verbatim>\<open>super().__init__()\<close> without arguments
  leaves the dictionary as it is, \<^verbatim>\<open>_scopes\<close> is set to the empty list, then the three
  providers are merged in, each \<^verbatim>\<open>update\<close> running only if the one before returned.
\<close>

definition init :: "'d env \<Rightarrow> 'd namespace \<Rightarrow> ('d, unit) outcome" where
  "init E self =
     (case update E (self\<lparr>scopes := []\<rparr>) (get_types E) of
        (Inl e, self1) \<Rightarrow> (Inl e, self1)
      | (Inr _, self1) \<Rightarrow>
          (case update E self1 (get_constant_vars E) of
             (Inl e, self2) \<Rightarrow> (Inl e, self2)
           | (Inr _, self2) \<Rightarrow> update E self2 (get_builtin_functions E)))"

text \<open>
  \<^verbatim>\<open>Namespace()\<close>: \<^verbatim>\<open>__init__\<close> on a new object, whose dictionary is empty. The new
  object has no \<^verbatim>\<open>_scopes\<close> attribute yet; the record needs a value there, which
  \<^verbatim>\<open>__init__\<close> overwrites first thing.
\<close>

definition Namespace :: "'d env \<Rightarrow> ('d, unit) outcome" where
  "Namespace E = init E \<lparr>dict = Map.empty, scopes = []\<rparr>"

text \<open>\<^verbatim>\<open>clear\<close>: \<^verbatim>\<open>dict.clear\<close> empties the dictionary, then \<^verbatim>\<open>__init__\<close> runs again.\<close>

definition clear :: "'d env \<Rightarrow> 'd namespace \<Rightarrow> ('d, unit) outcome" where
  "clear E self = init E (self\<lparr>dict := Map.empty\<rparr>)"

subsection \<open>Sequences of calls\<close>

text \<open>
  The calls a client makes on one namespace object. Each leaves the object in the
  state the call produced, whether it returned or raised.
\<close>

datatype 'd call =
    Insert string 'd
  | Lookup string
  | Enter_scope
  | Exit_scope
  | Reset

fun step :: "'d env \<Rightarrow> 'd namespace \<Rightarrow> 'd call \<Rightarrow> 'd namespace" where
  "step E self (Insert attr obj) = snd (setitem E self attr obj)"
| "step E self (Lookup key) = snd (getitem self key)"
| "step E self Enter_scope = snd (enter_scope E self)"
| "step E self Exit_scope = snd (exit self)"
| "step E self Reset = snd (clear E self)"

definition run :: "'d env \<Rightarrow> 'd call list \<Rightarrow> 'd namespace" where
  "run E calls = foldl (step E) (snd (Namespace E)) calls"

subsection \<open>A small instance of the imported tables\<close>

text \<open>
  Concrete values for the parameters, used where a statement is evaluated on an input:
  a few opcodes, two types, two constant environment variables, two builtin functions
  (one of them, \<^verbatim>\<open>send\<close>, a reserved keyword) and the mutable variable \<^verbatim>\<open>self\<close>.
  Definitions are numbered.
\<close>

definition example_env :: "nat env" where
  "example_env =
     \<lparr>OPCODES = {''STOP'', ''ADD'', ''MUL'', ''SUB''},
      get_types = [(''int128'', 0), (''bool'', 1)],
      get_constant_vars = [(''block'', 2), (''msg'', 3)],
      get_builtin_functions = [(''floor'', 4), (''send'', 5)],
      get_mutable_vars = [(''self'', 6)]\<rparr>"

section \<open>Properties\<close>

subsection \<open>The cases of an assignment\<close>

lemma setitem_malformed:
  "\<not> re_match attr \<Longrightarrow>
   setitem E self attr obj =
     (Inr (), self\<lparr>scopes := (if scopes self \<noteq> []
                   then butlast (scopes self) @ [add (last (scopes self)) attr]
                   else scopes self),
                dict := (dict self)(attr \<mapsto> obj)\<rparr>)"
  by (simp add: setitem_def validate_assignment_def)

lemma setitem_bootstrap:
  "re_match attr \<Longrightarrow> dict self attr = None \<Longrightarrow> scopes self = [] \<Longrightarrow>
   setitem E self attr obj = (Inr (), self\<lparr>dict := (dict self)(attr \<mapsto> obj)\<rparr>)"
  by (simp add: setitem_def validate_assignment_def)

lemma setitem_scoped:
  "re_match attr \<Longrightarrow> dict self attr = None \<Longrightarrow> scopes self \<noteq> [] \<Longrightarrow>
   lower attr \<notin> RESERVED_KEYWORDS \<Longrightarrow> upper attr \<notin> OPCODES E \<Longrightarrow>
   setitem E self attr obj =
     (Inr (), self\<lparr>scopes := butlast (scopes self) @ [add (last (scopes self)) attr],
                dict := (dict self)(attr \<mapsto> obj)\<rparr>)"
  by (simp add: setitem_def validate_assignment_def)

lemma setitem_reserved:
  "re_match attr \<Longrightarrow> dict self attr = None \<Longrightarrow> scopes self \<noteq> [] \<Longrightarrow>
   lower attr \<in> RESERVED_KEYWORDS \<or> upper attr \<in> OPCODES E \<Longrightarrow>
   setitem E self attr obj = (Inl (StructureException (Is_a_reserved_keyword attr)), self)"
  by (simp add: setitem_def validate_assignment_def)

lemma setitem_collision:
  "re_match attr \<Longrightarrow> dict self attr = Some old \<Longrightarrow>
   setitem E self attr obj =
     (Inl (NamespaceCollision
            (if attr \<notin> set (concat (scopes self)) then Is_a_builtin attr
             else Already_declared_as attr old)), self)"
  by (simp add: setitem_def validate_assignment_def)


lemma setitem_raises: "setitem E self attr obj = (Inl e, self') \<Longrightarrow> self' = self"
  by (auto simp: setitem_def split: sum.splits)

lemma setitem_returns:
  "setitem E self attr obj = (Inr u, self') \<Longrightarrow>
   self' = self\<lparr>scopes := (if scopes self \<noteq> []
                   then butlast (scopes self) @ [add (last (scopes self)) attr]
                   else scopes self),
                dict := (dict self)(attr \<mapsto> obj)\<rparr>"
  by (auto simp: setitem_def split: sum.splits)


lemma distinct_foldl_add: "distinct s \<Longrightarrow> distinct (foldl add s ks)"
  by (induction ks arbitrary: s) (auto simp: add_def)

lemma del_keys_bound:
  "distinct keys \<Longrightarrow> list_all (\<lambda>k. dict self k \<noteq> None) keys \<Longrightarrow>
   del_keys keys self = (Inr (), self\<lparr>dict := dict self |` (- set keys)\<rparr>)"
proof (induction keys arbitrary: self)
  case Nil
  then show ?case by simp
next
  case (Cons key keys)
  let ?self1 = "self\<lparr>dict := (dict self)(key := None)\<rparr>"
  from Cons.prems have bound: "dict self key \<noteq> None" and fresh: "key \<notin> set keys"
    and rest: "distinct keys" "list_all (\<lambda>k. dict self k \<noteq> None) keys"
    by simp_all
  from rest(2) fresh have "list_all (\<lambda>k. dict ?self1 k \<noteq> None) keys"
    by (auto simp: list_all_iff)
  with Cons.IH rest(1)
  have "del_keys keys ?self1 = (Inr (), ?self1\<lparr>dict := dict ?self1 |` (- set keys)\<rparr>)"
    by blast
  moreover have "dict ?self1 |` (- set keys) = dict self |` (- set (key # keys))"
    by (rule ext) (simp add: restrict_map_def)
  ultimately show ?case using bound by auto
qed

lemma del_keys_scopes: "scopes (snd (del_keys keys self)) = scopes self"
  by (induction keys arbitrary: self) (auto split: option.splits)

lemma del_keys_missing:
  "\<not> list_all (\<lambda>k. dict self k \<noteq> None) keys \<Longrightarrow>
   \<exists>k. k \<in> set keys \<and> fst (del_keys keys self) = Inl (KeyError k)"
proof (induction keys arbitrary: self)
  case Nil
  then show ?case by simp
next
  case (Cons key keys)
  show ?case
  proof (cases "dict self key")
    case None
    then show ?thesis by auto
  next
    case (Some obj)
    let ?self1 = "self\<lparr>dict := (dict self)(key := None)\<rparr>"
    from Cons.prems Some have "\<not> list_all (\<lambda>k. dict self k \<noteq> None) keys" by simp
    then have "\<not> list_all (\<lambda>k. dict ?self1 k \<noteq> None) keys"
      by (auto simp: list_all_iff)
    from Cons.IH [OF this] Some show ?thesis by auto
  qed
qed

lemma update_bootstrap_scopes:
  "scopes self = [] \<Longrightarrow> scopes (snd (update E self other)) = []"
proof (induction other arbitrary: self)
  case Nil
  then show ?case by simp
next
  case (Cons kv other)
  obtain key val where kv: "kv = (key, val)" by (cases kv)
  obtain r self' where r: "setitem E self key val = (r, self')" by (cases "setitem E self key val")
  show ?case
  proof (cases r)
    case (Inl e)
    with r have "self' = self" by (auto dest: setitem_raises)
    with Inl r kv Cons.prems show ?thesis by simp
  next
    case (Inr u)
    with r Cons.prems have "scopes self' = []" by (auto dest: setitem_returns)
    with Cons.IH Inr r kv show ?thesis by simp
  qed
qed

lemma update_returns_dict:
  "fst (update E self other) = Inr () \<Longrightarrow>
   dict (snd (update E self other)) = dict self ++ map_of (rev other)"
proof (induction other arbitrary: self)
  case Nil
  then show ?case by simp
next
  case (Cons kv other)
  obtain key val where kv: "kv = (key, val)" by (cases kv)
  obtain r self' where r: "setitem E self key val = (r, self')" by (cases "setitem E self key val")
  show ?case
  proof (cases r)
    case (Inl e)
    with r kv Cons.prems show ?thesis by simp
  next
    case (Inr u)
    with r have d: "dict self' = (dict self)(key \<mapsto> val)" by (auto dest: setitem_returns)
    from Inr r kv Cons.prems have "fst (update E self' other) = Inr ()" by simp
    from Cons.IH [OF this] have "dict (snd (update E self' other)) = dict self' ++ map_of (rev other)" .
    moreover have "(dict self)(key \<mapsto> val) ++ map_of (rev other) = dict self ++ map_of (rev (kv # other))"
      by (rule ext) (simp add: kv map_add_def split: option.splits)
    moreover have "update E self (kv # other) = update E self' other"
      using r Inr kv by simp
    ultimately show ?thesis by (simp only: d)
  qed
qed



lemma init_scopes: "scopes (snd (init E self)) = []"
proof -
  let ?u1 = "update E (self\<lparr>scopes := []\<rparr>) (get_types E)"
  let ?u2 = "update E (snd ?u1) (get_constant_vars E)"
  let ?u3 = "update E (snd ?u2) (get_builtin_functions E)"
  have s1: "scopes (snd ?u1) = []" by (simp add: update_bootstrap_scopes)
  then have s2: "scopes (snd ?u2) = []" by (rule update_bootstrap_scopes)
  then have s3: "scopes (snd ?u3) = []" by (rule update_bootstrap_scopes)
  show ?thesis
    using s1 s2 s3 by (auto simp: init_def split: prod.splits sum.splits)
qed

lemma init_returns_dict:
  assumes "fst (init E self) = Inr ()"
  shows "dict (snd (init E self)) =
         dict self ++ map_of (rev (get_types E @ get_constant_vars E @ get_builtin_functions E))"
proof -
  let ?u1 = "update E (self\<lparr>scopes := []\<rparr>) (get_types E)"
  let ?u2 = "update E (snd ?u1) (get_constant_vars E)"
  let ?u3 = "update E (snd ?u2) (get_builtin_functions E)"
  from assms have r1: "fst ?u1 = Inr ()" and r2: "fst ?u2 = Inr ()" and r3: "fst ?u3 = Inr ()"
    and res: "init E self = ?u3"
    by (auto simp: init_def split: prod.splits sum.splits)
  have "dict (snd ?u3) = dict self ++ map_of (rev (get_types E)) ++ map_of (rev (get_constant_vars E))
          ++ map_of (rev (get_builtin_functions E))"
    by (simp add: update_returns_dict [OF r1] update_returns_dict [OF r2] update_returns_dict [OF r3])
  then show ?thesis by (simp add: res)
qed


subsection \<open>Evaluation on the small instance\<close>

lemmas str_defs = re_match_def first_char_def later_char_def ascii_lowercase_def
  ascii_uppercase_def digits_def lower_def upper_def lower_char_def upper_char_def
  RESERVED_KEYWORDS_def

lemma example_names:
  "re_match ''int128''" "re_match ''bool''" "re_match ''block''" "re_match ''msg''"
  "re_match ''floor''" "re_match ''send''" "re_match ''self''" "re_match ''x''"
  "re_match ''if''" "re_match ''external''" "re_match ''stop''"
  "\<not> re_match ''1abc''" "\<not> re_match ''foo-bar''"
  by (simp_all add: str_defs)

lemma example_reserved:
  "lower ''if'' \<in> RESERVED_KEYWORDS" "lower ''external'' \<in> RESERVED_KEYWORDS"
  "upper ''stop'' \<in> OPCODES example_env"
  "lower ''self'' \<notin> RESERVED_KEYWORDS" "upper ''self'' \<notin> OPCODES example_env"
  "lower ''x'' \<notin> RESERVED_KEYWORDS" "upper ''x'' \<notin> OPCODES example_env"
  by (simp_all add: str_defs example_env_def)

lemma Namespace_example:
  "Namespace example_env =
     (Inr (), \<lparr>dict = [''int128'' \<mapsto> 0, ''bool'' \<mapsto> 1, ''block'' \<mapsto> 2, ''msg'' \<mapsto> 3,
                      ''floor'' \<mapsto> 4, ''send'' \<mapsto> 5],
               scopes = []\<rparr>)"
  by (simp add: Namespace_def init_def example_env_def setitem_bootstrap example_names)

lemma mutable_example: "get_mutable_vars example_env = [(''self'', 6)]"
  by (simp add: example_env_def)

lemma enter_scope_example:
  "enter_scope example_env (snd (Namespace example_env)) =
     (Inr (), \<lparr>dict = [''int128'' \<mapsto> 0, ''bool'' \<mapsto> 1, ''block'' \<mapsto> 2, ''msg'' \<mapsto> 3,
                      ''floor'' \<mapsto> 4, ''send'' \<mapsto> 5, ''self'' \<mapsto> 6],
               scopes = [[''self'']]\<rparr>)"
  by (simp add: Namespace_example enter_scope_def mutable_example setitem_scoped
      example_names example_reserved add_def)

lemma providers_example:
  "get_types example_env = [(''int128'', 0), (''bool'', 1)]"
  "get_constant_vars example_env = [(''block'', 2), (''msg'', 3)]"
  "get_builtin_functions example_env = [(''floor'', 4), (''send'', 5)]"
  by (simp_all add: example_env_def)

lemma Namespace_example_returns:
  "fst (Namespace example_env) = Inr ()"
  "scopes (snd (Namespace example_env)) = []"
  "dict (snd (Namespace example_env)) =
     [''int128'' \<mapsto> 0, ''bool'' \<mapsto> 1, ''block'' \<mapsto> 2, ''msg'' \<mapsto> 3, ''floor'' \<mapsto> 4,
      ''send'' \<mapsto> 5]"
  by (simp_all add: Namespace_example)

subsection \<open>Lookup\<close>

text \<open>
  Claim C9. \<^verbatim>\<open>__getitem__\<close> returns a definition exactly when the key is bound, and then
  the definition bound to it; for a key that is not bound it raises
  \<^verbatim>\<open>UndeclaredDefinition\<close>. In both cases the dictionary and the scope stack are as
  they were.
\<close>
theorem getitem_iff_bound:
  "((\<exists>obj. fst (getitem self key) = Inr obj) \<longleftrightarrow> dict self key \<noteq> None) \<and>
   (\<forall>obj. dict self key = Some obj \<longrightarrow> fst (getitem self key) = Inr obj) \<and>
   (dict self key = None \<longrightarrow>
      fst (getitem self key) = Inl (UndeclaredDefinition (Has_not_been_declared key))) \<and>
   snd (getitem self key) = self"
  by (cases "dict self key") (simp_all add: getitem_def)

theorem getitem_iff_bound_witness:
  "fst (getitem (snd (Namespace example_env)) ''msg'') = Inr 3 \<and>
   fst (getitem (snd (Namespace example_env)) ''x'') =
     Inl (UndeclaredDefinition (Has_not_been_declared ''x'')) \<and>
   snd (getitem (snd (Namespace example_env)) ''msg'') = snd (Namespace example_env) \<and>
   snd (getitem (snd (Namespace example_env)) ''x'') = snd (Namespace example_env)"
  using getitem_iff_bound [of "snd (Namespace example_env)" "''msg''"]
    getitem_iff_bound [of "snd (Namespace example_env)" "''x''"]
  by (simp add: Namespace_example)

subsection \<open>Leaving a scope that was never entered\<close>

text \<open>
  Claim C6. With an empty scope stack \<^verbatim>\<open>__exit__\<close> raises \<^verbatim>\<open>CompilerPanic\<close> and leaves
  the namespace as it was. \<^verbatim>\<open>CompilerPanic\<close> is none of the exceptions a user's mistake
  raises (\<^verbatim>\<open>StructureException\<close>, \<^verbatim>\<open>NamespaceCollision\<close>, \<^verbatim>\<open>UndeclaredDefinition\<close>),
  whatever their messages.
\<close>
theorem exit_without_scope_panics:
  "scopes self = [] \<Longrightarrow>
   exit self = (Inl (CompilerPanic Bad_use_as_a_context_manager), self) \<and>
   CompilerPanic Bad_use_as_a_context_manager \<noteq> StructureException m1 \<and>
   CompilerPanic Bad_use_as_a_context_manager \<noteq> NamespaceCollision m2 \<and>
   CompilerPanic Bad_use_as_a_context_manager \<noteq> UndeclaredDefinition m3"
  by (simp add: exit_def)

theorem exit_without_scope_panics_witness:
  "scopes (snd (Namespace example_env)) = [] \<and>
   exit (snd (Namespace example_env)) =
     (Inl (CompilerPanic Bad_use_as_a_context_manager), snd (Namespace example_env))"
  using exit_without_scope_panics [of "snd (Namespace example_env)"]
  by (simp add: Namespace_example)

subsection \<open>Assignment, then lookup\<close>

text \<open>
  Claim C2. For a name that matches the identifier pattern, is neither a reserved
  keyword (lowercased) nor an opcode (uppercased) and is not bound, \<^verbatim>\<open>ns[name] = d\<close>
  returns, and \<^verbatim>\<open>ns[name]\<close> in the resulting namespace returns \<open>d\<close>.
\<close>
theorem insert_then_lookup:
  "re_match name \<Longrightarrow> lower name \<notin> RESERVED_KEYWORDS \<Longrightarrow> upper name \<notin> OPCODES E \<Longrightarrow>
   dict self name = None \<Longrightarrow>
   fst (setitem E self name d) = Inr () \<and>
   getitem (snd (setitem E self name d)) name = (Inr d, snd (setitem E self name d))"
  by (cases "scopes self = []")
     (simp_all add: setitem_bootstrap setitem_scoped getitem_def)

theorem insert_then_lookup_witness:
  "re_match ''x'' \<and> lower ''x'' \<notin> RESERVED_KEYWORDS \<and> upper ''x'' \<notin> OPCODES example_env \<and>
   dict (snd (enter_scope example_env (snd (Namespace example_env)))) ''x'' = None \<and>
   fst (setitem example_env (snd (enter_scope example_env (snd (Namespace example_env)))) ''x'' 7)
     = Inr () \<and>
   fst (getitem (snd (setitem example_env
         (snd (enter_scope example_env (snd (Namespace example_env)))) ''x'' 7)) ''x'') = Inr 7"
  using insert_then_lookup [of "''x''" example_env
      "snd (enter_scope example_env (snd (Namespace example_env)))" 7]
  by (simp add: example_names example_reserved enter_scope_example)


subsection \<open>Bindings made with no scope open\<close>

text \<open>
  A name that matches the identifier pattern, is bound and is recorded in no scope
  stays bound to the same definition through every call but \<^verbatim>\<open>clear\<close>: an assignment to
  it raises \<^verbatim>\<open>NamespaceCollision\<close>, so no scope ever records it, and \<^verbatim>\<open>__exit__\<close> deletes
  recorded names only.
\<close>

lemma concat_butlast_subset: "ss \<noteq> [] \<Longrightarrow> set (concat (butlast ss)) \<subseteq> set (concat ss)"
proof -
  assume "ss \<noteq> []"
  then have "ss = butlast ss @ [last ss]" by simp
  then have "concat ss = concat (butlast ss) @ last ss"
    by (metis concat.simps(1,2) concat_append append_Nil2)
  then show ?thesis by simp
qed

lemma setitem_keeps:
  assumes "re_match name" "dict self name = Some d" "name \<notin> set (concat (scopes self))"
  shows "dict (snd (setitem E self attr obj)) name = Some d \<and>
         name \<notin> set (concat (scopes (snd (setitem E self attr obj))))"
proof (cases "attr = name")
  case True
  with assms show ?thesis by (simp add: setitem_collision)
next
  case False
  obtain r self' where r: "setitem E self attr obj = (r, self')"
    by (cases "setitem E self attr obj")
  show ?thesis
  proof (cases r)
    case (Inl e)
    with r have "self' = self" by (auto dest: setitem_raises)
    with r assms show ?thesis by simp
  next
    case (Inr u)
    with r have self': "self' = self\<lparr>scopes := (if scopes self \<noteq> []
                   then butlast (scopes self) @ [add (last (scopes self)) attr]
                   else scopes self),
                dict := (dict self)(attr \<mapsto> obj)\<rparr>"
      by (auto dest: setitem_returns)
    have "name \<notin> set (concat (butlast (scopes self) @ [add (last (scopes self)) attr]))"
      if "scopes self \<noteq> []"
    proof -
      from that have "set (concat (butlast (scopes self))) \<subseteq> set (concat (scopes self))"
        by (rule concat_butlast_subset)
      moreover from that have "last (scopes self) \<in> set (scopes self)" by simp
      then have "set (last (scopes self)) \<subseteq> set (concat (scopes self))" by auto
      ultimately show ?thesis using assms(3) False by (auto simp: add_def)
    qed
    with assms False show ?thesis by (simp add: r self')
  qed
qed

lemma update_keeps:
  "re_match name \<Longrightarrow> dict self name = Some d \<Longrightarrow> name \<notin> set (concat (scopes self)) \<Longrightarrow>
   dict (snd (update E self other)) name = Some d \<and>
   name \<notin> set (concat (scopes (snd (update E self other))))"
proof (induction other arbitrary: self)
  case Nil
  then show ?case by simp
next
  case (Cons kv other)
  obtain key val where kv: "kv = (key, val)" by (cases kv)
  obtain r self' where r: "setitem E self key val = (r, self')"
    by (cases "setitem E self key val")
  from setitem_keeps [OF Cons.prems, of E key val] r
  have keep: "dict self' name = Some d" "name \<notin> set (concat (scopes self'))" by simp_all
  show ?case
  proof (cases r)
    case (Inl e)
    with r kv keep show ?thesis by simp
  next
    case (Inr u)
    have "update E self (kv # other) = update E self' other" using r Inr kv by simp
    with Cons.IH [OF Cons.prems(1) keep] show ?thesis by simp
  qed
qed

lemma del_keys_keeps:
  "name \<notin> set keys \<Longrightarrow> dict (snd (del_keys keys self)) name = dict self name"
  by (induction keys arbitrary: self) (auto split: option.splits)

lemma step_keeps:
  assumes "re_match name" "dict self name = Some d" "name \<notin> set (concat (scopes self))"
    "c \<noteq> Reset"
  shows "dict (step E self c) name = Some d \<and> name \<notin> set (concat (scopes (step E self c)))"
proof (cases c)
  case (Insert attr obj)
  with setitem_keeps [OF assms(1-3)] show ?thesis by simp
next
  case (Lookup key)
  with assms show ?thesis by (simp add: getitem_def split: option.splits)
next
  case Enter_scope
  let ?self1 = "self\<lparr>scopes := scopes self @ [[]]\<rparr>"
  from assms have "dict ?self1 name = Some d" "name \<notin> set (concat (scopes ?self1))"
    by simp_all
  from update_keeps [OF assms(1) this, of E "get_mutable_vars E"]
  have upd: "dict (snd (update E ?self1 (get_mutable_vars E))) name = Some d \<and>
        name \<notin> set (concat (scopes (snd (update E ?self1 (get_mutable_vars E)))))" .
  have "enter_scope E self =
        (if scopes self = [] then update E ?self1 (get_mutable_vars E) else (Inr (), ?self1))"
    by (simp add: enter_scope_def Let_def)
  with upd assms Enter_scope show ?thesis by (cases "scopes self = []") simp_all
next
  case Exit_scope
  show ?thesis
  proof (cases "scopes self = []")
    case True
    with assms Exit_scope show ?thesis by (simp add: exit_def)
  next
    case False
    then have "last (scopes self) \<in> set (scopes self)" by simp
    with assms(3) have "name \<notin> set (last (scopes self))" by auto
    moreover from concat_butlast_subset [OF False] assms(3)
    have "name \<notin> set (concat (butlast (scopes self)))" by auto
    ultimately show ?thesis using False assms(2) Exit_scope
      by (simp add: exit_def del_keys_keeps del_keys_scopes)
  qed
next
  case Reset
  with assms show ?thesis by simp
qed

lemma calls_keep:
  "re_match name \<Longrightarrow> dict self name = Some d \<Longrightarrow> name \<notin> set (concat (scopes self)) \<Longrightarrow>
   Reset \<notin> set calls \<Longrightarrow>
   dict (foldl (step E) self calls) name = Some d"
proof (induction calls arbitrary: self)
  case Nil
  then show ?case by simp
next
  case (Cons c calls)
  from Cons.prems have "c \<noteq> Reset" "Reset \<notin> set calls" by auto
  from step_keeps [OF Cons.prems(1-3) this(1), of E] Cons.IH [OF Cons.prems(1) _ _ this(2)]
  show ?case by simp
qed

subsection \<open>Reserved keywords and opcodes\<close>

text \<open>
  Claim C5. Take a name that matches the identifier pattern, is not bound, and whose
  lowercased form is a reserved keyword or whose uppercased form is an opcode. With a
  scope open, assigning to it raises \<^verbatim>\<open>StructureException\<close> ("is a reserved keyword")
  and changes nothing. With no scope open the same assignment returns: the name is
  bound to the definition and recorded in no scope, the stack staying empty, and the
  binding is permanent: it is still there after any sequence of assignments, lookups,
  scope entries and scope exits.
\<close>

theorem reserved_name_rejected_in_scope_only:
  assumes "re_match name" and "dict self name = None"
    and "lower name \<in> RESERVED_KEYWORDS \<or> upper name \<in> OPCODES E"
  shows "(scopes self \<noteq> [] \<longrightarrow>
            setitem E self name d =
              (Inl (StructureException (Is_a_reserved_keyword name)), self)) \<and>
         (scopes self = [] \<longrightarrow>
            setitem E self name d = (Inr (), self\<lparr>dict := (dict self)(name \<mapsto> d)\<rparr>) \<and>
            (Reset \<notin> set calls \<longrightarrow>
               dict (foldl (step E) (snd (setitem E self name d)) calls) name = Some d))"
proof (cases "scopes self = []")
  case False
  with assms show ?thesis by (simp add: setitem_reserved)
next
  case True
  let ?self' = "self\<lparr>dict := (dict self)(name \<mapsto> d)\<rparr>"
  from assms True have bound: "setitem E self name d = (Inr (), ?self')"
    by (simp add: setitem_bootstrap)
  have "dict ?self' name = Some d" and "name \<notin> set (concat (scopes ?self'))"
    using True by simp_all
  from calls_keep [OF assms(1) this, of calls E] bound True show ?thesis by simp
qed

theorem reserved_name_rejected_in_scope_only_witness:
  "re_match ''if'' \<and> lower ''if'' \<in> RESERVED_KEYWORDS \<and>
   re_match ''stop'' \<and> upper ''stop'' \<in> OPCODES example_env \<and>
   fst (setitem example_env (snd (enter_scope example_env (snd (Namespace example_env)))) ''if'' 7)
     = Inl (StructureException (Is_a_reserved_keyword ''if'')) \<and>
   fst (setitem example_env (snd (enter_scope example_env (snd (Namespace example_env)))) ''stop'' 7)
     = Inl (StructureException (Is_a_reserved_keyword ''stop'')) \<and>
   fst (setitem example_env (snd (Namespace example_env)) ''if'' 7) = Inr () \<and>
   dict (snd (setitem example_env (snd (Namespace example_env)) ''if'' 7)) ''if'' = Some 7 \<and>
   scopes (snd (setitem example_env (snd (Namespace example_env)) ''if'' 7)) = [] \<and>
   fst (setitem example_env (snd (Namespace example_env)) ''stop'' 7) = Inr () \<and>
   dict (foldl (step example_env)
          (snd (setitem example_env (snd (Namespace example_env)) ''if'' 7))
          [Enter_scope, Insert ''x'' 8, Exit_scope]) ''if'' = Some 7"
proof -
  let ?new = "snd (Namespace example_env)"
  let ?open = "snd (enter_scope example_env ?new)"
  let ?calls = "[Enter_scope, Insert ''x'' 8, Exit_scope] :: nat call list"
  note ex = example_names example_reserved enter_scope_example Namespace_example_returns
  have kw: "re_match ''if''" "lower ''if'' \<in> RESERVED_KEYWORDS \<or> upper ''if'' \<in> OPCODES example_env"
    and op: "re_match ''stop''"
      "lower ''stop'' \<in> RESERVED_KEYWORDS \<or> upper ''stop'' \<in> OPCODES example_env"
    by (simp_all add: ex)
  have unbound: "dict ?new ''if'' = None" "dict ?new ''stop'' = None"
    "dict ?open ''if'' = None" "dict ?open ''stop'' = None"
    by (simp_all add: ex)
  have depth: "scopes ?new = []" "scopes ?open \<noteq> []"
    by (simp_all add: ex)
  have calls: "Reset \<notin> set ?calls" by simp
  from reserved_name_rejected_in_scope_only [OF kw(1) unbound(3) kw(2), of 7 "[]"] depth(2)
  have 1: "fst (setitem example_env ?open ''if'' 7) =
           Inl (StructureException (Is_a_reserved_keyword ''if''))"
    by simp
  from reserved_name_rejected_in_scope_only [OF op(1) unbound(4) op(2), of 7 "[]"] depth(2)
  have 2: "fst (setitem example_env ?open ''stop'' 7) =
           Inl (StructureException (Is_a_reserved_keyword ''stop''))"
    by simp
  from reserved_name_rejected_in_scope_only [OF kw(1) unbound(1) kw(2), of 7 ?calls] depth(1)
  have 3: "setitem example_env ?new ''if'' 7 = (Inr (), ?new\<lparr>dict := (dict ?new)(''if'' \<mapsto> 7)\<rparr>)"
    and 4: "Reset \<notin> set ?calls \<longrightarrow>
            dict (foldl (step example_env) (snd (setitem example_env ?new ''if'' 7)) ?calls) ''if''
              = Some 7"
    by blast+
  from reserved_name_rejected_in_scope_only [OF op(1) unbound(2) op(2), of 7 "[]"] depth(1)
  have 5: "setitem example_env ?new ''stop'' 7 =
           (Inr (), ?new\<lparr>dict := (dict ?new)(''stop'' \<mapsto> 7)\<rparr>)"
    by blast
  from 4 calls
  have 6: "dict (foldl (step example_env) (snd (setitem example_env ?new ''if'' 7)) ?calls) ''if''
             = Some 7"
    by blast
  have 7: "fst (setitem example_env ?new ''if'' 7) = Inr ()"
    "dict (snd (setitem example_env ?new ''if'' 7)) ''if'' = Some 7"
    "scopes (snd (setitem example_env ?new ''if'' 7)) = []"
    "fst (setitem example_env ?new ''stop'' 7) = Inr ()"
    by (simp_all add: 3 5 depth(1))
  from kw(1) op(1) 1 2 6 7 show ?thesis
    by (simp only: example_reserved simp_thms)
qed

subsection \<open>Entering a scope\<close>






subsection \<open>Clearing\<close>

text \<open>
  Claim C8. From every namespace, \<^verbatim>\<open>clear\<close> has the outcome and the resulting namespace
  of constructing a new \<^verbatim>\<open>Namespace\<close>. The scope stack is empty afterwards, and when the
  call returns the dictionary is the one the three providers' items give, merged in
  the order types, constant variables, builtin functions.
\<close>

theorem clear_is_new_Namespace:
  "clear E self = Namespace E \<and>
   scopes (snd (clear E self)) = [] \<and>
   (fst (clear E self) = Inr () \<longrightarrow>
      dict (snd (clear E self)) =
        map_of (rev (get_types E @ get_constant_vars E @ get_builtin_functions E)))"
proof -
  have same: "clear E self = Namespace E"
    by (cases self) (simp add: clear_def Namespace_def init_def)
  have "fst (Namespace E) = Inr () \<longrightarrow>
        dict (snd (Namespace E)) =
          map_of (rev (get_types E @ get_constant_vars E @ get_builtin_functions E))"
    unfolding Namespace_def using init_returns_dict [of E "\<lparr>dict = Map.empty, scopes = []\<rparr>"]
    by simp
  moreover have "scopes (snd (Namespace E)) = []"
    by (simp add: Namespace_def init_scopes)
  ultimately show ?thesis by (simp add: same)
qed

theorem clear_is_new_Namespace_witness:
  "clear example_env (snd (setitem example_env
       (snd (enter_scope example_env (snd (Namespace example_env)))) ''x'' 7))
     = Namespace example_env \<and>
   fst (Namespace example_env) = Inr () \<and>
   scopes (snd (Namespace example_env)) = [] \<and>
   dict (snd (Namespace example_env)) =
     map_of [(''send'', 5), (''floor'', 4), (''msg'', 3), (''block'', 2), (''bool'', 1),
             (''int128'', 0)]"
  using clear_is_new_Namespace [of example_env "snd (setitem example_env
       (snd (enter_scope example_env (snd (Namespace example_env)))) ''x'' 7)"]
  by (simp add: Namespace_example_returns providers_example)


subsection \<open>Leaving a scope\<close>

text \<open>
  When every name recorded in the innermost set is bound, \<^verbatim>\<open>__exit__\<close> returns, pops that
  set and deletes exactly its names; every other binding stays as it was. When one of
  them is not bound, \<^verbatim>\<open>__exit__\<close> raises \<^verbatim>\<open>KeyError\<close>.
\<close>

lemma enter_scope_nested:
  "scopes self \<noteq> [] \<Longrightarrow> enter_scope E self = (Inr (), self\<lparr>scopes := scopes self @ [[]]\<rparr>)"
  by (simp add: enter_scope_def)

lemma exit_pops_innermost:
  assumes "scopes self \<noteq> []" and "distinct (last (scopes self))"
    and "list_all (\<lambda>k. dict self k \<noteq> None) (last (scopes self))"
  shows "exit self =
         (Inr (), \<lparr>dict = dict self |` (- set (last (scopes self))),
                   scopes = butlast (scopes self)\<rparr>)"
proof -
  let ?self1 = "self\<lparr>scopes := butlast (scopes self)\<rparr>"
  from assms(3) have "list_all (\<lambda>k. dict ?self1 k \<noteq> None) (last (scopes self))" by simp
  from del_keys_bound [OF assms(2) this] assms(1) show ?thesis
    by (cases self) (simp add: exit_def)
qed

lemma exit_missing_key:
  assumes "scopes self \<noteq> []"
    and "\<not> list_all (\<lambda>k. dict self k \<noteq> None) (last (scopes self))"
  shows "\<exists>k. k \<in> set (last (scopes self)) \<and> fst (exit self) = Inl (KeyError k)"
proof -
  let ?self1 = "self\<lparr>scopes := butlast (scopes self)\<rparr>"
  from assms(2) have "\<not> list_all (\<lambda>k. dict ?self1 k \<noteq> None) (last (scopes self))" by simp
  from del_keys_missing [OF this] assms(1) show ?thesis by (simp add: exit_def)
qed

subsection \<open>Names that do not match the identifier pattern\<close>

text \<open>
  Line 85 of \<^verbatim>\<open>validate_assignment\<close> returns the \<^verbatim>\<open>StructureException\<close> it builds where the
  lines below it raise theirs. For a name that does not match the pattern the method
  therefore returns before the collision and keyword checks, and \<^verbatim>\<open>__setitem__\<close>, which
  ignores the returned value, carries the assignment out. The runs below start from a
  new namespace over the small instance.
\<close>

lemma example_run1:
  "run example_env [Enter_scope, Insert ''1abc'' 7] =
     \<lparr>dict = [''int128'' \<mapsto> 0, ''bool'' \<mapsto> 1, ''block'' \<mapsto> 2, ''msg'' \<mapsto> 3,
              ''floor'' \<mapsto> 4, ''send'' \<mapsto> 5, ''self'' \<mapsto> 6, ''1abc'' \<mapsto> 7],
      scopes = [[''self'', ''1abc'']]\<rparr>"
  by (simp add: run_def enter_scope_example setitem_malformed example_names add_def)

lemma example_run2:
  "run example_env [Enter_scope, Insert ''1abc'' 7, Enter_scope, Insert ''1abc'' 8] =
     \<lparr>dict = [''int128'' \<mapsto> 0, ''bool'' \<mapsto> 1, ''block'' \<mapsto> 2, ''msg'' \<mapsto> 3,
              ''floor'' \<mapsto> 4, ''send'' \<mapsto> 5, ''self'' \<mapsto> 6, ''1abc'' \<mapsto> 8],
      scopes = [[''self'', ''1abc''], [''1abc'']]\<rparr>"
  by (simp add: run_def enter_scope_example enter_scope_nested setitem_malformed example_names
      add_def)

lemma example_run3:
  "run example_env [Enter_scope, Insert ''1abc'' 7, Enter_scope, Insert ''1abc'' 8, Exit_scope] =
     \<lparr>dict = [''int128'' \<mapsto> 0, ''bool'' \<mapsto> 1, ''block'' \<mapsto> 2, ''msg'' \<mapsto> 3,
              ''floor'' \<mapsto> 4, ''send'' \<mapsto> 5, ''self'' \<mapsto> 6, ''1abc'' \<mapsto> 8](''1abc'' := None),
      scopes = [[''self'', ''1abc'']]\<rparr>"
  by (simp add: run_def enter_scope_example enter_scope_nested setitem_malformed example_names
      add_def exit_def)

text \<open>
  Claim C1 does not hold of the code. For every name that does not match the
  identifier pattern, \<^verbatim>\<open>__setitem__\<close> returns normally and the name is bound to the
  definition afterwards; no \<^verbatim>\<open>StructureException\<close> is raised.
\<close>

theorem malformed_name_is_bound:
  "\<not> re_match name \<Longrightarrow>
   fst (setitem E self name d) = Inr () \<and> dict (snd (setitem E self name d)) name = Some d"
  by (simp add: setitem_malformed)

theorem malformed_name_is_bound_witness:
  "\<not> re_match ''1abc'' \<and> \<not> re_match ''foo-bar'' \<and>
   fst (setitem example_env (run example_env [Enter_scope]) ''1abc'' 7) = Inr () \<and>
   dict (snd (setitem example_env (run example_env [Enter_scope]) ''1abc'' 7)) ''1abc'' = Some 7 \<and>
   fst (setitem example_env (run example_env [Enter_scope]) ''foo-bar'' 7) = Inr () \<and>
   dict (snd (setitem example_env (run example_env [Enter_scope]) ''foo-bar'' 7)) ''foo-bar''
     = Some 7"
  using malformed_name_is_bound [of "''1abc''" example_env "run example_env [Enter_scope]" 7]
    malformed_name_is_bound [of "''foo-bar''" example_env "run example_env [Enter_scope]" 7]
  by (simp add: example_names)

text \<open>
  Claim C4 does not hold of the code for such a name. After \<^verbatim>\<open>ns["1abc"] = 7\<close> in the
  first scope, the name is bound to 7; \<^verbatim>\<open>ns["1abc"] = 8\<close> then returns normally, raising
  no \<^verbatim>\<open>NamespaceCollision\<close>, and the name is bound to 8. (For a bound name that matches
  the pattern the collision is raised and nothing changes: \<open>setitem_collision\<close>.)
\<close>

theorem bound_malformed_name_is_overwritten:
  "dict (run example_env [Enter_scope, Insert ''1abc'' 7]) ''1abc'' = Some 7 \<and>
   fst (setitem example_env (run example_env [Enter_scope, Insert ''1abc'' 7]) ''1abc'' 8)
     = Inr () \<and>
   dict (snd (setitem example_env (run example_env [Enter_scope, Insert ''1abc'' 7]) ''1abc'' 8))
     ''1abc'' = Some 8"
  by (simp add: example_run1 setitem_malformed example_names)

text \<open>
  Claim C3 does not hold of the code in a state such names lead to. Enter a scope,
  assign to \<^verbatim>\<open>1abc\<close>, enter a second scope, assign to \<^verbatim>\<open>1abc\<close> again, and leave the
  second scope: one scope is open, and leaving it raises \<^verbatim>\<open>KeyError\<close> for \<^verbatim>\<open>1abc\<close>.
  (In a state whose innermost set holds bound names only the claim holds:
  \<open>exit_pops_innermost\<close>.)
\<close>

theorem exit_raises_KeyError:
  "scopes (run example_env
     [Enter_scope, Insert ''1abc'' 7, Enter_scope, Insert ''1abc'' 8, Exit_scope]) \<noteq> [] \<and>
   fst (exit (run example_env
     [Enter_scope, Insert ''1abc'' 7, Enter_scope, Insert ''1abc'' 8, Exit_scope]))
     = Inl (KeyError ''1abc'')"
  by (simp add: example_run3 exit_def)

text \<open>
  Claim C10 does not hold of the code. After the same five calls on a new namespace
  the outer scope's set records \<^verbatim>\<open>1abc\<close>, which is not a key of the dictionary.
\<close>

theorem recorded_name_not_bound:
  "''1abc'' \<in> set (concat (scopes (run example_env
     [Enter_scope, Insert ''1abc'' 7, Enter_scope, Insert ''1abc'' 8, Exit_scope]))) \<and>
   dict (run example_env
     [Enter_scope, Insert ''1abc'' 7, Enter_scope, Insert ''1abc'' 8, Exit_scope]) ''1abc'' = None"
  by (simp add: example_run3)


end
